theory Spec2Isabelle
  imports Main "HOL-Library.Sublist" "HOL-Library.Word"
begin

section \<open>The spy-plot script \<open>joss/temp/temp.py\<close>\<close>

text \<open>
  The script is seventeen lines of module-level code: three path constants and one
  \<^verbatim>\<open>for\<close> loop whose body calls \<^verbatim>\<open>np.load\<close>, \<^verbatim>\<open>sp.csc_array\<close>, \<^verbatim>\<open>plt.figure\<close>,
  \<^verbatim>\<open>plt.spy\<close>, \<^verbatim>\<open>plt.axis\<close>, \<^verbatim>\<open>plt.savefig\<close> and \<^verbatim>\<open>plt.close\<close>.  The model keeps what
  the script itself decides (the paths, the arguments, the order of the calls, and
  that no exception is caught) and takes what numpy, scipy and matplotlib compute as
  parameters, collected in the record \<open>env\<close>.
\<close>

subsection \<open>Paths (\<^verbatim>\<open>pathlib\<close>, POSIX flavour)\<close>

text \<open>
  A pure path is an anchor flag and its components.  \<^verbatim>\<open>Path(s)\<close> and \<^verbatim>\<open>p / s\<close> split
  the string at \<^verbatim>\<open>/\<close> and drop empty and \<^verbatim>\<open>.\<close> components; a string that starts with
  \<^verbatim>\<open>/\<close> replaces the path on the left.  \<^verbatim>\<open>p.parent\<close> drops the last component and is
  \<^verbatim>\<open>p\<close> itself when there is none; like \<^verbatim>\<open>pathlib\<close> it is lexical (no \<^verbatim>\<open>..\<close> is
  resolved).  The root \<^verbatim>\<open>//\<close> that POSIX keeps apart from \<^verbatim>\<open>/\<close> is not distinguished.
\<close>

record path =
  absolute :: bool
  parts :: "string list"

fun split_slash :: "string \<Rightarrow> string list" where
  "split_slash [] = [[]]"
| "split_slash (ch # cs) =
     (if ch = CHR ''/'' then [] # split_slash cs
      else (case split_slash cs of
              [] \<Rightarrow> [[ch]]
            | w # ws \<Rightarrow> (ch # w) # ws))"

definition parse_parts :: "string \<Rightarrow> string list" where
  "parse_parts s = filter (\<lambda>w. w \<noteq> [] \<and> w \<noteq> ''.'') (split_slash s)"

definition truediv :: "path \<Rightarrow> string \<Rightarrow> path" where
  "truediv p s =
     (if s \<noteq> [] \<and> hd s = CHR ''/''
      then \<lparr>absolute = True, parts = parse_parts s\<rparr>
      else \<lparr>absolute = absolute p, parts = parts p @ parse_parts s\<rparr>)"

definition Path :: "string \<Rightarrow> path" where
  "Path s = truediv \<lparr>absolute = False, parts = []\<rparr> s"

definition parent :: "path \<Rightarrow> path" where
  "parent p = \<lparr>absolute = absolute p, parts = butlast (parts p)\<rparr>"

subsection \<open>The module constants\<close>

text \<open>
  \<^verbatim>\<open>WD = Path(__file__).parent\<close>, \<^verbatim>\<open>SRC_DIR = WD / "npz"\<close>,
  \<^verbatim>\<open>DST_DIR = WD.parent / "graphics"\<close>; the argument \<open>file\<close> is the string \<^verbatim>\<open>__file__\<close>.
  \<open>names\<close> is the list literal of the \<^verbatim>\<open>for\<close> statement, and \<open>src_path\<close>, \<open>dst_path\<close>
  are the two path expressions \<^verbatim>\<open>SRC_DIR / f"{name}.npz"\<close> and
  \<^verbatim>\<open>DST_DIR / f"{name}.png"\<close> of the loop body.
\<close>

definition WD :: "string \<Rightarrow> path" where
  "WD file = parent (Path file)"

definition SRC_DIR :: "string \<Rightarrow> path" where
  "SRC_DIR file = truediv (WD file) ''npz''"

definition DST_DIR :: "string \<Rightarrow> path" where
  "DST_DIR file = truediv (parent (WD file)) ''graphics''"

definition names :: "string list" where
  "names = [''A'', ''A_min'', ''A_rec'']"

definition src_path :: "string \<Rightarrow> string \<Rightarrow> path" where
  "src_path file name = truediv (SRC_DIR file) (name @ ''.npz'')"

definition dst_path :: "string \<Rightarrow> string \<Rightarrow> path" where
  "dst_path file name = truediv (DST_DIR file) (name @ ''.png'')"

subsection \<open>The world the script runs in\<close>

text \<open>
  An exception is either the operating system refusing to open a path or whatever a
  library raises; the classes and messages of the libraries' exceptions are theirs and
  are not modelled.
\<close>

type_synonym bytes = "8 word list"

datatype exn = OSError path | LibError string

text \<open>
  The calls the script makes, in the order they complete, are kept in a log.
\<close>

datatype event = Load path | CscArray | Figure | Spy | AxisOff | Savefig path | Close

record 'm spy_call =
  spy_mat :: 'm
  spy_precision :: int
  spy_ms :: int
  spy_c :: string

text \<open>
  A figure keeps the keyword arguments it was created with (\<open>None\<close>: not given, the
  \<^verbatim>\<open>rcParams\<close> default applies), whether its axes are drawn, and the spy plots on it.
\<close>

record 'm figure =
  figsize :: "(int \<times> int) option"
  edgecolor :: "string option"
  linewidth :: "int option"
  axis_on :: bool
  artists :: "'m spy_call list"

text \<open>
  The state: the files and directories on disk, pyplot's open figures (the current
  one first), and the log.
\<close>

record 'm state =
  files :: "path \<rightharpoonup> bytes"
  dirs :: "path set"
  figs :: "'m figure list"
  log :: "event list"

text \<open>
  What the libraries compute: \<open>npy_decode\<close> is \<^verbatim>\<open>np.load\<close> on the content of an
  opened file, \<open>csc_convert\<close> is \<^verbatim>\<open>sp.csc_array\<close>, \<open>spy_raises\<close> says whether
  \<^verbatim>\<open>plt.spy\<close> rejects its matrix, \<open>rasterize\<close> is the drawing that \<^verbatim>\<open>plt.savefig\<close>
  does before it writes (with its \<^verbatim>\<open>dpi\<close> and \<^verbatim>\<open>bbox_inches\<close>), and \<open>writable\<close> says
  whether the system lets the file be created once its directory exists.
\<close>

record ('r, 'm) env =
  npy_decode :: "bytes \<Rightarrow> exn + 'r"
  csc_convert :: "'r \<Rightarrow> exn + 'm"
  spy_raises :: "'m \<Rightarrow> exn option"
  rasterize :: "'m figure \<Rightarrow> int \<Rightarrow> string \<Rightarrow> exn + bytes"
  writable :: "path \<Rightarrow> bool"

subsection \<open>The library calls\<close>

text \<open>
  Every call returns the state it leaves behind, also when it raises: an exception
  undoes nothing.  Opening a missing file for reading fails, and so does creating a
  file in a directory that does not exist; no call of the script creates a directory.
  Paths are compared as \<^verbatim>\<open>pathlib\<close> builds them: links and \<^verbatim>\<open>..\<close> are not resolved.
  \<^verbatim>\<open>plt.savefig\<close> draws first and creates the file afterwards; a write that breaks
  off half-way (a full disk) is outside the model.
\<close>

definition np_load :: "('r, 'm) env \<Rightarrow> path \<Rightarrow> 'm state \<Rightarrow> (exn + 'r) \<times> 'm state" where
  "np_load E p st =
     (case files st p of
        None \<Rightarrow> (Inl (OSError p), st)
      | Some b \<Rightarrow>
          (case npy_decode E b of
             Inl e \<Rightarrow> (Inl e, st)
           | Inr r \<Rightarrow> (Inr r, st\<lparr>log := log st @ [Load p]\<rparr>)))"

definition sp_csc_array :: "('r, 'm) env \<Rightarrow> 'r \<Rightarrow> 'm state \<Rightarrow> (exn + 'm) \<times> 'm state" where
  "sp_csc_array E r st =
     (case csc_convert E r of
        Inl e \<Rightarrow> (Inl e, st)
      | Inr m \<Rightarrow> (Inr m, st\<lparr>log := log st @ [CscArray]\<rparr>))"

definition plt_figure :: "int \<times> int \<Rightarrow> string \<Rightarrow> int \<Rightarrow> 'm state \<Rightarrow> 'm state" where
  "plt_figure fsz ec lw st =
     st\<lparr>figs := \<lparr>figsize = Some fsz, edgecolor = Some ec, linewidth = Some lw,
                  axis_on = True, artists = []\<rparr> # figs st,
        log := log st @ [Figure]\<rparr>"

text \<open>\<^verbatim>\<open>gcf()\<close>: the current figure, created from the defaults when none is open.\<close>

definition gcf :: "'m state \<Rightarrow> 'm state" where
  "gcf st =
     (case figs st of
        [] \<Rightarrow> st\<lparr>figs := [\<lparr>figsize = None, edgecolor = None, linewidth = None,
                           axis_on = True, artists = []\<rparr>]\<rparr>
      | _ # _ \<Rightarrow> st)"

definition plt_spy ::
  "('r, 'm) env \<Rightarrow> 'm \<Rightarrow> int \<Rightarrow> int \<Rightarrow> string \<Rightarrow> 'm state \<Rightarrow> exn option \<times> 'm state" where
  "plt_spy E m prec msz col st =
     (let st' = gcf st; fig = hd (figs st') in
      case spy_raises E m of
        Some e \<Rightarrow> (Some e, st')
      | None \<Rightarrow>
          (None, st'\<lparr>figs := fig\<lparr>artists := artists fig @
                         [\<lparr>spy_mat = m, spy_precision = prec, spy_ms = msz, spy_c = col\<rparr>]\<rparr>
                       # tl (figs st'),
                     log := log st' @ [Spy]\<rparr>))"

definition plt_axis_off :: "'m state \<Rightarrow> 'm state" where
  "plt_axis_off st =
     (let st' = gcf st; fig = hd (figs st') in
      st'\<lparr>figs := fig\<lparr>axis_on := False\<rparr> # tl (figs st'), log := log st' @ [AxisOff]\<rparr>)"

definition plt_savefig ::
  "('r, 'm) env \<Rightarrow> path \<Rightarrow> int \<Rightarrow> string \<Rightarrow> 'm state \<Rightarrow> exn option \<times> 'm state" where
  "plt_savefig E p dpi bbox st =
     (let st' = gcf st in
      case rasterize E (hd (figs st')) dpi bbox of
        Inl e \<Rightarrow> (Some e, st')
      | Inr img \<Rightarrow>
          if parent p \<in> dirs st' \<and> writable E p
          then (None, st'\<lparr>files := (files st')(p \<mapsto> img), log := log st' @ [Savefig p]\<rparr>)
          else (Some (OSError p), st'))"

definition plt_close :: "'m state \<Rightarrow> 'm state" where
  "plt_close st = st\<lparr>figs := tl (figs st), log := log st @ [Close]\<rparr>"

subsection \<open>The loop\<close>

text \<open>
  One iteration of the \<^verbatim>\<open>for\<close> statement.  Nothing is caught: the first exception
  ends the iteration with the state as it is at that moment.
\<close>

definition body ::
  "('r, 'm) env \<Rightarrow> string \<Rightarrow> string \<Rightarrow> 'm state \<Rightarrow> exn option \<times> 'm state" where
  "body E file name st0 =
     (case np_load E (src_path file name) st0 of
        (Inl e, st1) \<Rightarrow> (Some e, st1)
      | (Inr r, st1) \<Rightarrow>
     (case sp_csc_array E r st1 of
        (Inl e, st2) \<Rightarrow> (Some e, st2)
      | (Inr mat, st2) \<Rightarrow>
     (case plt_spy E mat 0 4 ''black'' (plt_figure (6, 6) ''black'' 2 st2) of
        (Some e, st4) \<Rightarrow> (Some e, st4)
      | (None, st4) \<Rightarrow>
     (case plt_savefig E (dst_path file name) 300 ''tight'' (plt_axis_off st4) of
        (Some e, st6) \<Rightarrow> (Some e, st6)
      | (None, st6) \<Rightarrow> (None, plt_close st6)))))"

text \<open>The \<^verbatim>\<open>for\<close> statement over a list of names: it stops at the first exception.\<close>

fun loop ::
  "('r, 'm) env \<Rightarrow> string \<Rightarrow> string list \<Rightarrow> 'm state \<Rightarrow> exn option \<times> 'm state" where
  "loop E file [] st = (None, st)"
| "loop E file (name # rest) st =
     (case body E file name st of
        (Some e, st') \<Rightarrow> (Some e, st')
      | (None, st') \<Rightarrow> loop E file rest st')"

text \<open>
  The whole script, started in a fresh interpreter (no figure is open, the log is
  empty) on a disk with the files \<open>fs\<close> and the directories \<open>ds\<close>.
\<close>

definition start :: "(path \<rightharpoonup> bytes) \<Rightarrow> path set \<Rightarrow> 'm state" where
  "start fs ds = \<lparr>files = fs, dirs = ds, figs = [], log = []\<rparr>"

definition script ::
  "('r, 'm) env \<Rightarrow> string \<Rightarrow> (path \<rightharpoonup> bytes) \<Rightarrow> path set \<Rightarrow> exn option \<times> 'm state" where
  "script E file fs ds = loop E file names (start fs ds)"

subsection \<open>What a run is compared with\<close>

text \<open>
  The figure that an iteration has built when it reaches \<^verbatim>\<open>plt.savefig\<close>: the arguments
  of \<^verbatim>\<open>plt.figure\<close>, one spy plot of the matrix with the arguments of \<^verbatim>\<open>plt.spy\<close>,
  axes off.
\<close>

definition spy_figure :: "'m \<Rightarrow> 'm figure" where
  "spy_figure m =
     \<lparr>figsize = Some (6, 6), edgecolor = Some ''black'', linewidth = Some 2,
      axis_on = False,
      artists = [\<lparr>spy_mat = m, spy_precision = 0, spy_ms = 4, spy_c = ''black''\<rparr>]\<rparr>"

text \<open>The calls of one complete iteration, in order.\<close>

definition cycle :: "string \<Rightarrow> string \<Rightarrow> event list" where
  "cycle file name =
     [Load (src_path file name), CscArray, Figure, Spy, AxisOff,
      Savefig (dst_path file name), Close]"

text \<open>
  From the content of a source file to the matrix handed to \<^verbatim>\<open>plt.spy\<close>, from that
  matrix to the image, and the two in a row.
\<close>

definition load_csc :: "('r, 'm) env \<Rightarrow> bytes \<Rightarrow> exn + 'm" where
  "load_csc E b = (case npy_decode E b of Inl e \<Rightarrow> Inl e | Inr r \<Rightarrow> csc_convert E r)"

definition draw :: "('r, 'm) env \<Rightarrow> 'm \<Rightarrow> exn + bytes" where
  "draw E m =
     (case spy_raises E m of
        Some e \<Rightarrow> Inl e
      | None \<Rightarrow> rasterize E (spy_figure m) 300 ''tight'')"

definition image_of :: "('r, 'm) env \<Rightarrow> bytes \<Rightarrow> exn + bytes" where
  "image_of E b = (case load_csc E b of Inl e \<Rightarrow> Inl e | Inr m \<Rightarrow> draw E m)"

text \<open>The paths of the files a log says were written, in order.\<close>

fun written :: "event list \<Rightarrow> path list" where
  "written [] = []"
| "written (Savefig p # es) = p # written es"
| "written (_ # es) = written es"

subsection \<open>A small world to run the script in\<close>

text \<open>
  A file is a list of numbers, decoding accepts every non-empty file, the conversion
  drops the zeros, and the image of a figure is the concatenation of its matrices.
  The script lies at \<^verbatim>\<open>/home/u/joss/temp/temp.py\<close>.
\<close>

definition demo_env :: "(bytes, bytes) env" where
  "demo_env =
     \<lparr>npy_decode = (\<lambda>b. if b = [] then Inl (LibError ''not an array'') else Inr b),
      csc_convert = (\<lambda>r. Inr (filter (\<lambda>x. x \<noteq> 0) r)),
      spy_raises = (\<lambda>m. None),
      rasterize = (\<lambda>fig dpi bbox. Inr (concat (map spy_mat (artists fig)))),
      writable = (\<lambda>p. True)\<rparr>"

definition demo_file :: string where
  "demo_file = ''/home/u/joss/temp/temp.py''"

definition demo_npz :: "string \<Rightarrow> path" where
  "demo_npz s = \<lparr>absolute = True, parts = [''home'', ''u'', ''joss'', ''temp'', ''npz'', s]\<rparr>"

definition demo_png :: "string \<Rightarrow> path" where
  "demo_png s = \<lparr>absolute = True, parts = [''home'', ''u'', ''joss'', ''graphics'', s]\<rparr>"

definition demo_files :: "path \<rightharpoonup> bytes" where
  "demo_files =
     [demo_npz ''A.npz'' \<mapsto> [1, 0, 2], demo_npz ''A_min.npz'' \<mapsto> [0, 3],
      demo_npz ''A_rec.npz'' \<mapsto> [4]]"

text \<open>The second source file is missing.\<close>

definition demo_files_gap :: "path \<rightharpoonup> bytes" where
  "demo_files_gap = [demo_npz ''A.npz'' \<mapsto> [1, 0, 2], demo_npz ''A_rec.npz'' \<mapsto> [4]]"

definition demo_dirs :: "path set" where
  "demo_dirs =
     {\<lparr>absolute = True, parts = [''home'', ''u'', ''joss'', ''temp'', ''npz'']\<rparr>,
      \<lparr>absolute = True, parts = [''home'', ''u'', ''joss'', ''graphics'']\<rparr>}"

text \<open>The directory \<^verbatim>\<open>graphics\<close> does not exist.\<close>

definition demo_dirs_src_only :: "path set" where
  "demo_dirs_src_only =
     {\<lparr>absolute = True, parts = [''home'', ''u'', ''joss'', ''temp'', ''npz'']\<rparr>}"

subsection \<open>Script paths written out\<close>




subsection \<open>A second small world: arrays in row-major and column-major order\<close>

text \<open>
  A source file holds an order flag (0: row-major, 1: column-major), the two
  dimensions and the entries; loading gives the array with its buffer as stored.  The
  conversion reads the array by its indices and builds the three arrays of the
  compressed-column form from the non-zero entries, column by column.  The image of a
  figure records the shape and the positions of the stored entries of its matrices.
\<close>

record ndarray =
  nd_fortran :: bool
  nd_shape :: "nat \<times> nat"
  nd_buffer :: bytes

record csc_matrix =
  csc_shape :: "nat \<times> nat"
  csc_indptr :: "nat list"
  csc_indices :: "nat list"
  csc_data :: bytes

definition npy_parse :: "bytes \<Rightarrow> exn + ndarray" where
  "npy_parse b =
     (case b of
        f # nr # nc # buf \<Rightarrow>
          if f \<le> 1 \<and> length buf = unat nr * unat nc
          then Inr \<lparr>nd_fortran = (f = 1), nd_shape = (unat nr, unat nc), nd_buffer = buf\<rparr>
          else Inl (LibError ''ValueError'')
      | _ \<Rightarrow> Inl (LibError ''ValueError''))"

definition nd_entry :: "ndarray \<Rightarrow> nat \<Rightarrow> nat \<Rightarrow> 8 word" where
  "nd_entry a i j =
     (case nd_shape a of
        (nr, nc) \<Rightarrow> nd_buffer a ! (if nd_fortran a then j * nr + i else i * nc + j))"

definition nd_column :: "ndarray \<Rightarrow> nat \<Rightarrow> (nat \<times> 8 word) list" where
  "nd_column a j =
     filter (\<lambda>(i, v). v \<noteq> 0) (map (\<lambda>i. (i, nd_entry a i j)) [0..<fst (nd_shape a)])"

fun offsets :: "nat \<Rightarrow> nat list \<Rightarrow> nat list" where
  "offsets k [] = [k]"
| "offsets k (l # ls) = k # offsets (k + l) ls"

definition to_csc :: "ndarray \<Rightarrow> csc_matrix" where
  "to_csc a =
     (let cols = map (nd_column a) [0..<snd (nd_shape a)] in
      \<lparr>csc_shape = nd_shape a,
       csc_indptr = offsets 0 (map length cols),
       csc_indices = concat (map (map fst) cols),
       csc_data = concat (map (map snd) cols)\<rparr>)"

definition mark_bytes :: "csc_matrix \<Rightarrow> bytes" where
  "mark_bytes m =
     [of_nat (fst (csc_shape m)), of_nat (snd (csc_shape m))] @
     map of_nat (csc_indptr m) @ map of_nat (csc_indices m)"

definition npy_env :: "(ndarray, csc_matrix) env" where
  "npy_env =
     \<lparr>npy_decode = npy_parse,
      csc_convert = (\<lambda>a. Inr (to_csc a)),
      spy_raises = (\<lambda>m. None),
      rasterize = (\<lambda>fig dpi bbox. Inr (concat (map (\<lambda>s. mark_bytes (spy_mat s)) (artists fig)))),
      writable = (\<lambda>p. True)\<rparr>"

text \<open>The matrix \<^verbatim>\<open>[[1, 0, 2], [0, 3, 0]]\<close> stored row-major and column-major.\<close>

definition npy_files_c :: "path \<rightharpoonup> bytes" where
  "npy_files_c =
     [demo_npz ''A.npz'' \<mapsto> [0, 2, 3, 1, 0, 2, 0, 3, 0],
      demo_npz ''A_min.npz'' \<mapsto> [0, 1, 1, 5],
      demo_npz ''A_rec.npz'' \<mapsto> [0, 1, 2, 0, 7]]"

definition npy_files_f :: "path \<rightharpoonup> bytes" where
  "npy_files_f =
     [demo_npz ''A.npz'' \<mapsto> [1, 2, 3, 1, 0, 0, 3, 2, 0],
      demo_npz ''A_min.npz'' \<mapsto> [0, 1, 1, 5],
      demo_npz ''A_rec.npz'' \<mapsto> [0, 1, 2, 0, 7]]"

section \<open>One iteration\<close>

lemmas call_defs = body_def np_load_def sp_csc_array_def plt_spy_def plt_figure_def gcf_def
  plt_axis_off_def plt_savefig_def plt_close_def Let_def

lemmas pipe_defs = image_of_def load_csc_def draw_def spy_figure_def

lemma body_result:
  "fst (body E file n st) =
     (case files st (src_path file n) of
        None \<Rightarrow> Some (OSError (src_path file n))
      | Some b \<Rightarrow>
          (case image_of E b of
             Inl e \<Rightarrow> Some e
           | Inr img \<Rightarrow>
               if parent (dst_path file n) \<in> dirs st \<and> writable E (dst_path file n)
               then None else Some (OSError (dst_path file n))))"
  by (simp add: call_defs pipe_defs split: option.splits sum.splits prod.splits)

lemma body_ok_state:
  assumes "fst (body E file n st) = None"
  shows "\<exists>b img. files st (src_path file n) = Some b \<and> image_of E b = Inr img \<and>
           snd (body E file n st) =
             st\<lparr>files := (files st)(dst_path file n \<mapsto> img), log := log st @ cycle file n\<rparr>"
  using assms
  by (auto simp: call_defs pipe_defs cycle_def
      split: option.splits sum.splits prod.splits if_splits)

lemma body_fail_state:
  assumes "fst (body E file n st) = Some e"
  shows "files (snd (body E file n st)) = files st \<and>
         (\<exists>r. strict_prefix r (cycle file n) \<and> log (snd (body E file n st)) = log st @ r)"
  using assms
  by (auto simp: call_defs cycle_def strict_prefix_def
      split: option.splits sum.splits prod.splits if_splits)

lemma body_dirs: "dirs (snd (body E file n st)) = dirs st"
  by (simp add: call_defs split: option.splits sum.splits prod.splits)

section \<open>The loop\<close>

lemma written_append: "written (xs @ ys) = written xs @ written ys"
  by (induction xs rule: written.induct) simp_all

lemma written_cycle: "written (cycle file n) = [dst_path file n]"
  by (simp add: cycle_def)

lemma loop_Cons_ok:
  "fst (body E file n st) = None \<Longrightarrow>
     loop E file (n # ns) st = loop E file ns (snd (body E file n st))"
  by (cases "body E file n st") simp

lemma loop_Cons_fail:
  "fst (body E file n st) = Some e \<Longrightarrow> loop E file (n # ns) st = body E file n st"
  by (cases "body E file n st") simp



lemma loop_append:
  "loop E file (xs @ ys) st =
     (case loop E file xs st of
        (Some e, st') \<Rightarrow> (Some e, st')
      | (None, st') \<Rightarrow> loop E file ys st')"
  by (induction xs arbitrary: st) (auto split: prod.splits option.splits)

lemma loop_log:
  "\<exists>k r. log (snd (loop E file ns st)) = log st @ concat (map (cycle file) (take k ns)) @ r \<and>
     (k = length ns \<and> r = [] \<and> fst (loop E file ns st) = None \<or>
      k < length ns \<and> strict_prefix r (cycle file (ns ! k)) \<and>
        (\<exists>e. fst (loop E file ns st) = Some e))"
proof (induction ns arbitrary: st)
  case Nil
  show ?case by simp
next
  case (Cons n ns)
  show ?case
  proof (cases "fst (body E file n st)")
    case None
    let ?st = "snd (body E file n st)"
    have eq: "loop E file (n # ns) st = loop E file ns ?st"
      using None by (rule loop_Cons_ok)
    have lg: "log ?st = log st @ cycle file n"
      using body_ok_state [OF None] by auto
    from Cons.IH [of ?st] obtain k r where
      k: "log (snd (loop E file ns ?st)) = log ?st @ concat (map (cycle file) (take k ns)) @ r"
      and d: "k = length ns \<and> r = [] \<and> fst (loop E file ns ?st) = None \<or>
        k < length ns \<and> strict_prefix r (cycle file (ns ! k)) \<and>
          (\<exists>e. fst (loop E file ns ?st) = Some e)"
      by blast
    show ?thesis
      apply (rule exI [of _ "Suc k"], rule exI [of _ r])
      using k d by (auto simp del: loop.simps simp: eq lg)
  next
    case (Some e)
    have eq: "loop E file (n # ns) st = body E file n st"
      using Some by (rule loop_Cons_fail)
    from body_fail_state [OF Some] obtain r where
      "strict_prefix r (cycle file n)" "log (snd (body E file n st)) = log st @ r"
      by blast
    then show ?thesis
      apply (intro exI [of _ 0] exI [of _ r])
      by (simp del: loop.simps add: eq Some)
  qed
qed

lemma loop_ok_state:
  "fst (loop E file ns st) = None \<Longrightarrow>
     log (snd (loop E file ns st)) = log st @ concat (map (cycle file) ns) \<and>
     dom (files (snd (loop E file ns st))) = dom (files st) \<union> set (map (dst_path file) ns) \<and>
     (\<forall>p. p \<notin> set (map (dst_path file) ns) \<longrightarrow> files (snd (loop E file ns st)) p = files st p)"
proof (induction ns arbitrary: st)
  case Nil
  show ?case by simp
next
  case (Cons n ns)
  have ok: "fst (body E file n st) = None"
    using Cons.prems by (cases "body E file n st") (auto split: option.splits)
  let ?st = "snd (body E file n st)"
  have eq: "loop E file (n # ns) st = loop E file ns ?st"
    using ok by (rule loop_Cons_ok)
  from body_ok_state [OF ok] obtain b img where
    st: "?st = st\<lparr>files := (files st)(dst_path file n \<mapsto> img), log := log st @ cycle file n\<rparr>"
    by blast
  have lg: "log ?st = log st @ cycle file n" and fl: "files ?st = (files st)(dst_path file n \<mapsto> img)"
    by (simp_all add: st)
  have "fst (loop E file ns ?st) = None" using Cons.prems unfolding eq .
  from Cons.IH [OF this] show ?case
    unfolding eq lg fl by auto
qed

lemma body_fail_written:
  "fst (body E file n st) = Some e \<Longrightarrow>
     written (log (snd (body E file n st))) = written (log st)"
  by (auto simp: call_defs written_append split: option.splits sum.splits prod.splits if_splits)

lemma body_ok_written:
  "fst (body E file n st) = None \<Longrightarrow>
     written (log (snd (body E file n st))) = written (log st) @ [dst_path file n]"
  using body_ok_state [of E "file" n st] by (auto simp: written_append written_cycle)


lemma image_of_cong:
  "load_csc E b1 = load_csc E b2 \<Longrightarrow> image_of E b1 = image_of E b2"
  by (simp add: image_of_def)

lemma body_same_output:
  assumes src: "map_option (load_csc E) (files st1 (src_path file n)) =
                map_option (load_csc E) (files st2 (src_path file n))"
    and dr: "dirs st1 = dirs st2"
  shows "fst (body E file n st1) = fst (body E file n st2) \<and>
         (fst (body E file n st1) = None \<longrightarrow>
            (\<exists>img. files (snd (body E file n st1)) = (files st1)(dst_path file n \<mapsto> img) \<and>
                   files (snd (body E file n st2)) = (files st2)(dst_path file n \<mapsto> img)))"
proof (cases "files st1 (src_path file n)")
  case None
  then have "files st2 (src_path file n) = None" using src by simp
  with None show ?thesis by (simp add: body_result)
next
  case (Some b1)
  then obtain b2 where b2: "files st2 (src_path file n) = Some b2"
    and eq: "load_csc E b1 = load_csc E b2"
    using src by (cases "files st2 (src_path file n)") auto
  have im: "image_of E b1 = image_of E b2" using eq by (rule image_of_cong)
  have r: "fst (body E file n st1) = fst (body E file n st2)"
    by (auto simp: body_result Some b2 im dr split: sum.splits)
  have "\<exists>img. files (snd (body E file n st1)) = (files st1)(dst_path file n \<mapsto> img) \<and>
              files (snd (body E file n st2)) = (files st2)(dst_path file n \<mapsto> img)"
    if ok: "fst (body E file n st1) = None"
  proof -
    have ok2: "fst (body E file n st2) = None" using ok r by simp
    from body_ok_state [OF ok] Some obtain i1 where
      1: "image_of E b1 = Inr i1"
         "snd (body E file n st1) =
            st1\<lparr>files := (files st1)(dst_path file n \<mapsto> i1), log := log st1 @ cycle file n\<rparr>"
      by auto
    from body_ok_state [OF ok2] b2 obtain i2 where
      2: "image_of E b2 = Inr i2"
         "snd (body E file n st2) =
            st2\<lparr>files := (files st2)(dst_path file n \<mapsto> i2), log := log st2 @ cycle file n\<rparr>"
      by auto
    have "i1 = i2" using 1(1) 2(1) im by simp
    then show ?thesis using 1(2) 2(2) by (intro exI [of _ i2]) simp
  qed
  with r show ?thesis by blast
qed

section \<open>The whole loop on two disks\<close>

lemma written_cycles: "written (concat (map (cycle file) ns)) = map (dst_path file) ns"
  by (induction ns) (simp_all add: written_append written_cycle)

lemma loop_same_output:
  assumes "\<forall>n\<in>set ns. map_option (load_csc E) (files st1 (src_path file n)) =
                    map_option (load_csc E) (files st2 (src_path file n))"
    and "set (map (src_path file) ns) \<inter> set (map (dst_path file) ns) = {}"
    and "dirs st1 = dirs st2"
    and "written (log st1) = written (log st2)"
    and "\<forall>p\<in>set (written (log st1)). files st1 p = files st2 p"
  shows "fst (loop E file ns st1) = fst (loop E file ns st2) \<and>
         written (log (snd (loop E file ns st1))) = written (log (snd (loop E file ns st2))) \<and>
         (\<forall>p\<in>set (written (log (snd (loop E file ns st1)))).
            files (snd (loop E file ns st1)) p = files (snd (loop E file ns st2)) p)"
  using assms
proof (induction ns arbitrary: st1 st2)
  case Nil
  then show ?case by simp
next
  case (Cons n ns)
  let ?t1 = "snd (body E file n st1)" and ?t2 = "snd (body E file n st2)"
  have src: "map_option (load_csc E) (files st1 (src_path file n)) =
             map_option (load_csc E) (files st2 (src_path file n))"
    using Cons.prems(1) by simp
  note b = body_same_output [OF src Cons.prems(3)]
  show ?case
  proof (cases "fst (body E file n st1)")
    case (Some e)
    then have s2: "fst (body E file n st2) = Some e" using b by simp
    have f1: "files ?t1 = files st1" using body_fail_state [OF Some] by simp
    have f2: "files ?t2 = files st2" using body_fail_state [OF s2] by simp
    show ?thesis
      unfolding loop_Cons_fail [OF Some] loop_Cons_fail [OF s2]
      using Some s2 body_fail_written [OF Some] body_fail_written [OF s2] f1 f2
        Cons.prems(4,5) by simp
  next
    case None
    then have n2: "fst (body E file n st2) = None" using b by simp
    from b None obtain img where
      f1: "files ?t1 = (files st1)(dst_path file n \<mapsto> img)" and
      f2: "files ?t2 = (files st2)(dst_path file n \<mapsto> img)"
      by blast
    have w1: "written (log ?t1) = written (log st1) @ [dst_path file n]"
      using None by (rule body_ok_written)
    have w2: "written (log ?t2) = written (log st2) @ [dst_path file n]"
      using n2 by (rule body_ok_written)
    have ne: "src_path file m \<noteq> dst_path file n" if "m \<in> set ns" for m
    proof
      assume "src_path file m = dst_path file n"
      then have "dst_path file n \<in> set (map (src_path file) (n # ns))"
        using that by force
      moreover have "dst_path file n \<in> set (map (dst_path file) (n # ns))" by simp
      ultimately show False using Cons.prems(2) by blast
    qed
    have p1: "\<forall>m\<in>set ns. map_option (load_csc E) (files ?t1 (src_path file m)) =
                    map_option (load_csc E) (files ?t2 (src_path file m))"
      using Cons.prems(1) ne by (simp add: f1 f2)
    have p2: "set (map (src_path file) ns) \<inter> set (map (dst_path file) ns) = {}"
      using Cons.prems(2) by auto
    have p3: "dirs ?t1 = dirs ?t2" using Cons.prems(3) by (simp add: body_dirs)
    have p4: "written (log ?t1) = written (log ?t2)" using w1 w2 Cons.prems(4) by simp
    have p5: "\<forall>p\<in>set (written (log ?t1)). files ?t1 p = files ?t2 p"
      using Cons.prems(5) by (simp add: w1 f1 f2)
    show ?thesis
      unfolding loop_Cons_ok [OF None] loop_Cons_ok [OF n2]
      by (rule Cons.IH [OF p1 p2 p3 p4 p5])
  qed
qed

lemma loop_ok_images:
  assumes "fst (loop E file ns st) = None"
    and "distinct (map (dst_path file) ns)"
    and "set (map (src_path file) ns) \<inter> set (map (dst_path file) ns) = {}"
  shows "figs (snd (loop E file ns st)) = figs st \<and>
         (\<forall>n\<in>set ns. \<exists>b img. files st (src_path file n) = Some b \<and> image_of E b = Inr img \<and>
            files (snd (loop E file ns st)) (dst_path file n) = Some img)"
  using assms
proof (induction ns arbitrary: st)
  case Nil
  show ?case by simp
next
  case (Cons n ns)
  have ok: "fst (body E file n st) = None"
    using Cons.prems(1) by (cases "body E file n st") (auto split: option.splits)
  let ?st = "snd (body E file n st)"
  have eq: "loop E file (n # ns) st = loop E file ns ?st"
    using ok by (rule loop_Cons_ok)
  from body_ok_state [OF ok] obtain b img where
    b: "files st (src_path file n) = Some b" "image_of E b = Inr img" and
    st: "?st = st\<lparr>files := (files st)(dst_path file n \<mapsto> img), log := log st @ cycle file n\<rparr>"
    by blast
  have fl: "files ?st = (files st)(dst_path file n \<mapsto> img)" and fg: "figs ?st = figs st"
    by (simp_all add: st)
  have ok': "fst (loop E file ns ?st) = None" using Cons.prems(1) unfolding eq .
  have d': "distinct (map (dst_path file) ns)" using Cons.prems(2) by simp
  have s': "set (map (src_path file) ns) \<inter> set (map (dst_path file) ns) = {}"
    using Cons.prems(3) by auto
  note ih = Cons.IH [OF ok' d' s']
  note fr = loop_ok_state [OF ok']
  have fresh: "dst_path file n \<notin> set (map (dst_path file) ns)" using Cons.prems(2) by simp
  have here: "files (snd (loop E file ns ?st)) (dst_path file n) = Some img"
    using fr fresh by (simp add: fl)
  have src_keep: "files ?st (src_path file m) = files st (src_path file m)" if "m \<in> set ns" for m
  proof -
    have "src_path file m \<noteq> dst_path file n"
    proof
      assume "src_path file m = dst_path file n"
      then have "dst_path file n \<in> set (map (src_path file) (n # ns))"
        using that by force
      moreover have "dst_path file n \<in> set (map (dst_path file) (n # ns))" by simp
      ultimately show False using Cons.prems(3) by blast
    qed
    then show ?thesis by (simp add: fl)
  qed
  have 1: "figs (snd (loop E file ns ?st)) = figs st"
    using ih fg by simp
  have 2: "\<exists>b img. files st (src_path file n) = Some b \<and> image_of E b = Inr img \<and>
      files (snd (loop E file ns ?st)) (dst_path file n) = Some img"
    using b here by blast
  have 3: "\<exists>b img. files st (src_path file m) = Some b \<and> image_of E b = Inr img \<and>
      files (snd (loop E file ns ?st)) (dst_path file m) = Some img" if m: "m \<in> set ns" for m
  proof -
    from ih m obtain b' img' where
      "files ?st (src_path file m) = Some b'" "image_of E b' = Inr img'"
      "files (snd (loop E file ns ?st)) (dst_path file m) = Some img'"
      by blast
    then show ?thesis using src_keep [OF m] by (intro exI [of _ b'] exI [of _ img']) simp
  qed
  show ?case
    unfolding eq using 1 2 3 by simp
qed

lemma image_of_Inr:
  "image_of E b = Inr img \<Longrightarrow>
     \<exists>r m. npy_decode E b = Inr r \<and> csc_convert E r = Inr m \<and> spy_raises E m = None \<and>
           rasterize E (spy_figure m) 300 ''tight'' = Inr img"
  by (auto simp: image_of_def load_csc_def draw_def split: sum.splits option.splits)

section \<open>The paths of the three names\<close>

lemmas path_defs = src_path_def dst_path_def SRC_DIR_def DST_DIR_def WD_def Path_def parent_def
  truediv_def parse_parts_def





lemma src_path_names:
  "map (src_path file) names =
     map (\<lambda>n. \<lparr>absolute = absolute (SRC_DIR file), parts = parts (SRC_DIR file) @ [n @ ''.npz'']\<rparr>) names"
  by (simp add: names_def src_path_def truediv_def parse_parts_def)

lemma dst_path_names:
  "map (dst_path file) names =
     map (\<lambda>n. \<lparr>absolute = absolute (DST_DIR file), parts = parts (DST_DIR file) @ [n @ ''.png'']\<rparr>) names"
  by (simp add: names_def dst_path_def truediv_def parse_parts_def)



lemma distinct_dst: "distinct (map (dst_path file) names)"
  unfolding dst_path_names by (simp add: names_def)

lemma src_ne_dst:
  "set (map (src_path file) names) \<inter> set (map (dst_path file) names) = {}"
  unfolding dst_path_names src_path_names by (simp add: names_def)



section \<open>Parsing a path that was written out\<close>







section \<open>The small world, evaluated\<close>

lemma demo_src:
  "src_path demo_file ''A'' = demo_npz ''A.npz''"
  "src_path demo_file ''A_min'' = demo_npz ''A_min.npz''"
  "src_path demo_file ''A_rec'' = demo_npz ''A_rec.npz''"
  by (simp_all add: path_defs demo_file_def demo_npz_def)

lemma demo_dst:
  "dst_path demo_file ''A'' = demo_png ''A.png''"
  "dst_path demo_file ''A_min'' = demo_png ''A_min.png''"
  "dst_path demo_file ''A_rec'' = demo_png ''A_rec.png''"
  by (simp_all add: path_defs demo_file_def demo_png_def)


lemmas demo_defs = demo_env_def demo_files_def demo_files_gap_def
  demo_dirs_def demo_dirs_src_only_def demo_npz_def demo_png_def

lemma demo_run_ok: "fst (script demo_env demo_file demo_files demo_dirs) = None"
  by (simp add: script_def start_def names_def call_defs demo_src demo_dst demo_defs parent_def)

lemma demo_first_ok: "fst (loop demo_env demo_file [''A''] (start demo_files_gap demo_dirs)) = None"
  by (simp add: start_def call_defs demo_src demo_dst demo_defs parent_def)

lemma demo_second_fails:
  "fst (body demo_env demo_file ''A_min''
          (snd (loop demo_env demo_file [''A''] (start demo_files_gap demo_dirs)))) =
     Some (OSError (demo_npz ''A_min.npz''))"
  by (simp add: start_def call_defs demo_src demo_dst demo_defs parent_def)

lemma demo_image_A: "image_of demo_env [1, 0, 2] = Inr [1, 2]"
  by (simp add: pipe_defs demo_env_def)

lemma demo_two_ok:
  "fst (loop demo_env demo_file (take 2 names) (start demo_files demo_dirs)) = None"
  by (simp add: start_def names_def call_defs demo_src demo_dst demo_defs parent_def)

lemma demo_image_A_min: "image_of demo_env [0, 3] = Inr [3]"
  by (simp add: pipe_defs demo_env_def)

section \<open>The second small world, evaluated\<close>

lemmas npy_defs = load_csc_def npy_env_def npy_parse_def to_csc_def nd_column_def nd_entry_def
  mark_bytes_def Let_def

lemma upt_3: "[0..<3] = [0, 1, 2]" "[0..<2] = [0, 1]" "[0..<1] = [0]"
  by (simp_all add: upt_rec)

lemma npy_A_c:
  "load_csc npy_env [0, 2, 3, 1, 0, 2, 0, 3, 0] =
     Inr \<lparr>csc_shape = (2, 3), csc_indptr = [0, 1, 2, 3], csc_indices = [0, 1, 0],
          csc_data = [1, 3, 2]\<rparr>"
  by (simp add: npy_defs upt_3)

lemma npy_A_f:
  "load_csc npy_env [1, 2, 3, 1, 0, 0, 3, 2, 0] =
     Inr \<lparr>csc_shape = (2, 3), csc_indptr = [0, 1, 2, 3], csc_indices = [0, 1, 0],
          csc_data = [1, 3, 2]\<rparr>"
  by (simp add: npy_defs upt_3)

lemma npy_A_min:
  "load_csc npy_env [0, 1, 1, 5] =
     Inr \<lparr>csc_shape = (1, 1), csc_indptr = [0, 1], csc_indices = [0], csc_data = [5]\<rparr>"
  by (simp add: npy_defs upt_3)

lemma npy_A_rec:
  "load_csc npy_env [0, 1, 2, 0, 7] =
     Inr \<lparr>csc_shape = (1, 2), csc_indptr = [0, 0, 1], csc_indices = [0], csc_data = [7]\<rparr>"
  by (simp add: npy_defs upt_3)

lemmas npy_run_defs = script_def start_def names_def call_defs demo_src demo_dst
  demo_dirs_def demo_npz_def demo_png_def parent_def npy_files_c_def npy_files_f_def
  npy_env_def npy_parse_def to_csc_def nd_column_def nd_entry_def mark_bytes_def upt_3

lemma npy_run_c: "fst (script npy_env demo_file npy_files_c demo_dirs) = None"
  by (simp add: npy_run_defs)

lemma npy_run_f: "fst (script npy_env demo_file npy_files_f demo_dirs) = None"
  by (simp add: npy_run_defs)

lemma npy_same_csc:
  "\<forall>n\<in>set names. map_option (load_csc npy_env) (npy_files_f (src_path demo_file n)) =
                  map_option (load_csc npy_env) (npy_files_c (src_path demo_file n))"
  by (simp add: names_def demo_src npy_files_c_def npy_files_f_def demo_npz_def npy_A_c npy_A_f)

section \<open>The claims\<close>

text \<open>
  C1.  In every run in which each of the three names is loaded, converted, drawn and
  saved without an exception, the files written are exactly
  \<^verbatim>\<open>DST_DIR/A.png\<close>, \<^verbatim>\<open>DST_DIR/A_min.png\<close> and \<^verbatim>\<open>DST_DIR/A_rec.png\<close>: one per name, in the
  order of the names, three different paths, and every other path on the disk holds
  what it held before the run.
\<close>

theorem one_png_per_name:
  assumes "fst (script E file fs ds) = None"
  shows "written (log (snd (script E file fs ds))) = map (dst_path file) names \<and>
         map (dst_path file) names =
           map (\<lambda>n. \<lparr>absolute = absolute (DST_DIR file),
                      parts = parts (DST_DIR file) @ [n @ ''.png'']\<rparr>) names \<and>
         distinct (map (dst_path file) names) \<and>
         length (written (log (snd (script E file fs ds)))) = 3 \<and>
         dom (files (snd (script E file fs ds))) = dom fs \<union> set (map (dst_path file) names) \<and>
         (\<forall>p. p \<notin> set (map (dst_path file) names) \<longrightarrow> files (snd (script E file fs ds)) p = fs p)"
proof -
  have ok: "fst (loop E file names (start fs ds)) = None"
    using assms by (simp add: script_def)
  note st = loop_ok_state [OF ok]
  have w: "written (concat (map (cycle file) ns)) = map (dst_path file) ns" for ns
    by (induction ns) (simp_all add: written_append written_cycle)
  have 1: "written (log (snd (script E file fs ds))) = map (dst_path file) names"
    using st by (simp add: script_def start_def w)
  have 2: "length (map (dst_path file) names) = 3" by (simp add: names_def)
  show ?thesis
    using st 1 2 dst_path_names [of "file"] distinct_dst [of "file"]
    by (simp add: script_def start_def)
qed

theorem one_png_per_name_witness:
  "fst (script demo_env demo_file demo_files demo_dirs) = None \<and>
   written (log (snd (script demo_env demo_file demo_files demo_dirs))) =
     [demo_png ''A.png'', demo_png ''A_min.png'', demo_png ''A_rec.png''] \<and>
   length (written (log (snd (script demo_env demo_file demo_files demo_dirs)))) = 3"
  using demo_run_ok one_png_per_name [OF demo_run_ok]
  by (simp add: names_def demo_dst)

text \<open>
  C2.  No exception is caught.  When the names before \<open>n\<close> have gone through and the
  iteration of \<open>n\<close> raises \<open>e\<close> (in \<^verbatim>\<open>np.load\<close>, \<^verbatim>\<open>sp.csc_array\<close>, \<^verbatim>\<open>plt.spy\<close> or
  \<^verbatim>\<open>plt.savefig\<close>), the run ends with that same \<open>e\<close> inside the iteration of \<open>n\<close>:
  nothing is called again and no later name is started, the files on disk are those
  left by the earlier names, no file has been written for \<open>n\<close>, and the path of its
  output holds what it held before the run.
\<close>

theorem abort_at_first_failure:
  assumes nm: "names = earlier @ n # later"
    and ok: "fst (loop E file earlier (start fs ds)) = None"
    and bad: "fst (body E file n (snd (loop E file earlier (start fs ds)))) = Some e"
  shows "fst (script E file fs ds) = Some e \<and>
         files (snd (script E file fs ds)) = files (snd (loop E file earlier (start fs ds))) \<and>
         written (log (snd (script E file fs ds))) = map (dst_path file) earlier \<and>
         dst_path file n \<notin> set (written (log (snd (script E file fs ds)))) \<and>
         files (snd (script E file fs ds)) (dst_path file n) = fs (dst_path file n) \<and>
         (\<exists>r. strict_prefix r (cycle file n) \<and>
              log (snd (script E file fs ds)) = concat (map (cycle file) earlier) @ r)"
proof -
  let ?mid = "snd (loop E file earlier (start fs ds))"
  have "loop E file (earlier @ n # later) (start fs ds) = loop E file (n # later) ?mid"
    using ok by (cases "loop E file earlier (start fs ds)") (simp add: loop_append)
  then have run: "script E file fs ds = body E file n ?mid"
    unfolding script_def nm using loop_Cons_fail [OF bad] by simp
  note st = loop_ok_state [OF ok]
  have lg: "log ?mid = concat (map (cycle file) earlier)"
    using st by (simp add: start_def)
  have "distinct (map (dst_path file) (earlier @ n # later))"
    using distinct_dst [of "file"] by (simp only: nm)
  then have fresh: "dst_path file n \<notin> set (map (dst_path file) earlier)"
    by auto
  have keep: "files ?mid (dst_path file n) = fs (dst_path file n)"
    using st fresh by (simp add: start_def)
  note fl = body_fail_state [OF bad]
  have w: "written (log (snd (body E file n ?mid))) = map (dst_path file) earlier"
    using body_fail_written [OF bad] by (simp add: lg written_cycles)
  show ?thesis
    unfolding run using bad fl w fresh keep by (simp add: lg)
qed

theorem abort_at_first_failure_witness:
  "names = [''A''] @ ''A_min'' # [''A_rec''] \<and>
   fst (loop demo_env demo_file [''A''] (start demo_files_gap demo_dirs)) = None \<and>
   fst (body demo_env demo_file ''A_min''
          (snd (loop demo_env demo_file [''A''] (start demo_files_gap demo_dirs)))) =
     Some (OSError (demo_npz ''A_min.npz'')) \<and>
   fst (script demo_env demo_file demo_files_gap demo_dirs) =
     Some (OSError (demo_npz ''A_min.npz'')) \<and>
   written (log (snd (script demo_env demo_file demo_files_gap demo_dirs))) =
     [demo_png ''A.png''] \<and>
   demo_png ''A_min.png'' \<notin>
     set (written (log (snd (script demo_env demo_file demo_files_gap demo_dirs))))"
proof -
  have nm: "names = [''A''] @ ''A_min'' # [''A_rec'']"
    by (simp add: names_def)
  show ?thesis
    using nm demo_first_ok demo_second_fails
      abort_at_first_failure [OF nm demo_first_ok demo_second_fails]
    by (simp del: loop.simps add: demo_dst demo_png_def)
qed

text \<open>
  C4.  In a run without an exception, for every name the source file is loaded, the
  loaded object is converted by \<^verbatim>\<open>sp.csc_array\<close>, and the file written for the name is
  the drawing of the figure that holds the spy plot of that converted matrix: the log
  has the conversion before the spy call in every cycle, and nothing of the loaded
  object but the converted matrix reaches the figure.  So a disk whose source files
  load and convert to the same matrices, however they are stored, gives a run without
  an exception too, with the same content in every output file.
\<close>

theorem rendered_from_csc:
  assumes ok: "fst (script E file fs ds) = None"
  shows "(\<forall>n\<in>set names. \<exists>b r m img.
            fs (src_path file n) = Some b \<and> npy_decode E b = Inr r \<and>
            csc_convert E r = Inr m \<and> spy_raises E m = None \<and>
            rasterize E (spy_figure m) 300 ''tight'' = Inr img \<and>
            files (snd (script E file fs ds)) (dst_path file n) = Some img) \<and>
         log (snd (script E file fs ds)) = concat (map (cycle file) names) \<and>
         (\<forall>fs'. (\<forall>n\<in>set names. map_option (load_csc E) (fs' (src_path file n)) =
                                 map_option (load_csc E) (fs (src_path file n))) \<longrightarrow>
            fst (script E file fs' ds) = None \<and>
            (\<forall>n\<in>set names. files (snd (script E file fs' ds)) (dst_path file n) =
                             files (snd (script E file fs ds)) (dst_path file n)))"
proof -
  have ok': "fst (loop E file names (start fs ds)) = None"
    using ok by (simp add: script_def)
  note im = loop_ok_images [OF ok' distinct_dst src_ne_dst]
  have 1: "\<exists>b r m img.
      fs (src_path file n) = Some b \<and> npy_decode E b = Inr r \<and>
      csc_convert E r = Inr m \<and> spy_raises E m = None \<and>
      rasterize E (spy_figure m) 300 ''tight'' = Inr img \<and>
      files (snd (script E file fs ds)) (dst_path file n) = Some img" if n: "n \<in> set names" for n
  proof -
    from im n obtain b img where
      b: "fs (src_path file n) = Some b" "image_of E b = Inr img"
        "files (snd (script E file fs ds)) (dst_path file n) = Some img"
      by (auto simp: script_def start_def)
    from image_of_Inr [OF b(2)] obtain r m where
      "npy_decode E b = Inr r" "csc_convert E r = Inr m" "spy_raises E m = None"
      "rasterize E (spy_figure m) 300 ''tight'' = Inr img"
      by blast
    with b show ?thesis by blast
  qed
  have 2: "log (snd (script E file fs ds)) = concat (map (cycle file) names)"
    using loop_ok_state [OF ok'] by (simp add: script_def start_def)
  have 3: "fst (script E file fs' ds) = None \<and>
      (\<forall>n\<in>set names. files (snd (script E file fs' ds)) (dst_path file n) =
                       files (snd (script E file fs ds)) (dst_path file n))"
    if h: "\<forall>n\<in>set names. map_option (load_csc E) (fs' (src_path file n)) =
                           map_option (load_csc E) (fs (src_path file n))" for fs'
  proof -
    have same: "fst (loop E file names (start fs' ds)) = fst (loop E file names (start fs ds)) \<and>
        written (log (snd (loop E file names (start fs' ds)))) =
          written (log (snd (loop E file names (start fs ds)))) \<and>
        (\<forall>p\<in>set (written (log (snd (loop E file names (start fs' ds))))).
           files (snd (loop E file names (start fs' ds))) p =
           files (snd (loop E file names (start fs ds))) p)"
      by (rule loop_same_output) (use h src_ne_dst [of "file"] in \<open>simp_all add: start_def\<close>)
    have w: "written (log (snd (loop E file names (start fs ds)))) = map (dst_path file) names"
      using loop_ok_state [OF ok'] by (simp add: start_def written_cycles)
    show ?thesis
      using same ok' w by (simp add: script_def)
  qed
  show ?thesis using 1 2 3 by blast
qed

theorem rendered_from_csc_witness:
  "fst (script npy_env demo_file npy_files_c demo_dirs) = None \<and>
   fst (script npy_env demo_file npy_files_f demo_dirs) = None \<and>
   npy_files_c (demo_npz ''A.npz'') \<noteq> npy_files_f (demo_npz ''A.npz'') \<and>
   load_csc npy_env [0, 2, 3, 1, 0, 2, 0, 3, 0] = load_csc npy_env [1, 2, 3, 1, 0, 0, 3, 2, 0] \<and>
   files (snd (script npy_env demo_file npy_files_c demo_dirs)) (demo_png ''A.png'') =
     Some [2, 3, 0, 1, 2, 3, 0, 1, 0] \<and>
   files (snd (script npy_env demo_file npy_files_f demo_dirs)) (demo_png ''A.png'') =
     Some [2, 3, 0, 1, 2, 3, 0, 1, 0]"
proof -
  note t = rendered_from_csc [OF npy_run_c]
  have d: "npy_files_c (demo_npz ''A.npz'') \<noteq> npy_files_f (demo_npz ''A.npz'')"
    by (simp add: npy_files_c_def npy_files_f_def demo_npz_def)
  have a: "''A'' \<in> set names" by (simp add: names_def)
  from t a obtain b r m img where
    b: "npy_files_c (src_path demo_file ''A'') = Some b" "npy_decode npy_env b = Inr r"
      "csc_convert npy_env r = Inr m"
      "rasterize npy_env (spy_figure m) 300 ''tight'' = Inr img"
      "files (snd (script npy_env demo_file npy_files_c demo_dirs)) (dst_path demo_file ''A'') = Some img"
    by blast
  have "b = [0, 2, 3, 1, 0, 2, 0, 3, 0]"
    using b(1) by (simp add: demo_src npy_files_c_def demo_npz_def)
  then have "load_csc npy_env [0, 2, 3, 1, 0, 2, 0, 3, 0] = Inr m"
    using b(2,3) by (simp add: load_csc_def)
  then have "m = \<lparr>csc_shape = (2, 3), csc_indptr = [0, 1, 2, 3], csc_indices = [0, 1, 0],
      csc_data = [1, 3, 2]\<rparr>"
    by (simp add: npy_A_c)
  then have "img = [2, 3, 0, 1, 2, 3, 0, 1, 0]"
    using b(4) by (auto simp: npy_env_def spy_figure_def mark_bytes_def)
  then have c: "files (snd (script npy_env demo_file npy_files_c demo_dirs)) (demo_png ''A.png'') =
      Some [2, 3, 0, 1, 2, 3, 0, 1, 0]"
    using b(5) by (simp add: demo_dst)
  from t npy_same_csc have
    f: "fst (script npy_env demo_file npy_files_f demo_dirs) = None"
    and e: "\<forall>n\<in>set names. files (snd (script npy_env demo_file npy_files_f demo_dirs)) (dst_path demo_file n) =
         files (snd (script npy_env demo_file npy_files_c demo_dirs)) (dst_path demo_file n)"
    by blast+
  from e a have "files (snd (script npy_env demo_file npy_files_f demo_dirs)) (demo_png ''A.png'') =
      files (snd (script npy_env demo_file npy_files_c demo_dirs)) (demo_png ''A.png'')"
    by (auto simp: demo_dst)
  with c d f npy_run_c show ?thesis by (simp add: npy_A_c npy_A_f)
qed

text \<open>
  C5.  Whenever the names before the \<open>j\<close>-th have gone through, so that the cycle of
  the \<open>j\<close>-th name begins, the run continues from the state they left, and in that
  state the log is exactly their complete cycles in the order of the list, no figure is
  open, and the output file of each of them is on disk with the drawing of its source;
  everything the run logs afterwards comes after these cycles.  The log of every run
  is the complete cycles of the first \<open>k\<close> names followed by nothing (no exception) or
  by an unfinished part of the cycle of the next name (an exception).
\<close>

theorem sequential_cycles:
  assumes j: "j \<le> length names"
    and ok: "fst (loop E file (take j names) (start fs ds)) = None"
  shows "script E file fs ds =
           loop E file (drop j names) (snd (loop E file (take j names) (start fs ds))) \<and>
         log (snd (loop E file (take j names) (start fs ds))) =
           concat (map (cycle file) (take j names)) \<and>
         figs (snd (loop E file (take j names) (start fs ds))) = [] \<and>
         (\<forall>i<j. \<exists>b img. fs (src_path file (names ! i)) = Some b \<and> image_of E b = Inr img \<and>
            files (snd (loop E file (take j names) (start fs ds))) (dst_path file (names ! i)) =
              Some img) \<and>
         prefix (log (snd (loop E file (take j names) (start fs ds))))
           (log (snd (script E file fs ds))) \<and>
         (\<exists>k r. log (snd (script E file fs ds)) = concat (map (cycle file) (take k names)) @ r \<and>
            (k = length names \<and> r = [] \<and> fst (script E file fs ds) = None \<or>
             k < length names \<and> strict_prefix r (cycle file (names ! k)) \<and>
               (\<exists>e. fst (script E file fs ds) = Some e)))"
proof -
  let ?S = "snd (loop E file (take j names) (start fs ds))"
  have "loop E file names (start fs ds) = loop E file (drop j names) ?S"
    using loop_append [of E "file" "take j names" "drop j names" "start fs ds"] ok
    by (cases "loop E file (take j names) (start fs ds)") simp
  then have run: "script E file fs ds = loop E file (drop j names) ?S"
    by (simp add: script_def)
  have lg: "log ?S = concat (map (cycle file) (take j names))"
    using loop_ok_state [OF ok] by (simp add: start_def)
  have d: "distinct (map (dst_path file) (take j names))"
    using distinct_dst [of "file"] by (simp add: take_map [symmetric])
  have s: "set (map (src_path file) (take j names)) \<inter> set (map (dst_path file) (take j names)) = {}"
  proof -
    have "set (map (src_path file) (take j names)) \<subseteq> set (map (src_path file) names)"
      "set (map (dst_path file) (take j names)) \<subseteq> set (map (dst_path file) names)"
      using set_take_subset [of j names] by auto
    then show ?thesis using src_ne_dst [of "file"] by blast
  qed
  note im = loop_ok_images [OF ok d s]
  have fg: "figs ?S = []" using im by (simp add: start_def)
  have wr: "\<exists>b img. fs (src_path file (names ! i)) = Some b \<and> image_of E b = Inr img \<and>
      files ?S (dst_path file (names ! i)) = Some img" if "i < j" for i
  proof -
    have "names ! i \<in> set (take j names)"
      using that j by (auto simp: in_set_conv_nth intro!: exI [of _ i])
    with im show ?thesis by (simp add: start_def)
  qed
  from loop_log [of E "file" "drop j names" ?S] obtain r where
    "log (snd (loop E file (drop j names) ?S)) = log ?S @ r"
    by auto
  then have pf: "prefix (log ?S) (log (snd (script E file fs ds)))"
    by (simp add: run)
  have all: "\<exists>k r. log (snd (script E file fs ds)) = concat (map (cycle file) (take k names)) @ r \<and>
      (k = length names \<and> r = [] \<and> fst (script E file fs ds) = None \<or>
       k < length names \<and> strict_prefix r (cycle file (names ! k)) \<and>
         (\<exists>e. fst (script E file fs ds) = Some e))"
    using loop_log [of E "file" names "start fs ds"] by (simp add: script_def start_def)
  show ?thesis
    using run lg fg wr pf all by blast
qed

theorem sequential_cycles_witness:
  "(2::nat) \<le> length names \<and>
   fst (loop demo_env demo_file (take 2 names) (start demo_files demo_dirs)) = None \<and>
   figs (snd (loop demo_env demo_file (take 2 names) (start demo_files demo_dirs))) = [] \<and>
   files (snd (loop demo_env demo_file (take 2 names) (start demo_files demo_dirs)))
     (demo_png ''A.png'') = Some [1, 2] \<and>
   files (snd (loop demo_env demo_file (take 2 names) (start demo_files demo_dirs)))
     (demo_png ''A_min.png'') = Some [3] \<and>
   script demo_env demo_file demo_files demo_dirs =
     loop demo_env demo_file [''A_rec'']
       (snd (loop demo_env demo_file (take 2 names) (start demo_files demo_dirs)))"
proof -
  have j: "(2::nat) \<le> length names" by (simp add: names_def)
  note t = sequential_cycles [OF j demo_two_ok]
  let ?S = "snd (loop demo_env demo_file (take 2 names) (start demo_files demo_dirs))"
  have fg: "figs ?S = []" using t by blast
  have run: "script demo_env demo_file demo_files demo_dirs =
      loop demo_env demo_file (drop 2 names) ?S"
    using t by blast
  have dr: "drop 2 names = [''A_rec'']" by (simp add: names_def)
  from t have w: "\<forall>i<2. \<exists>b img. demo_files (src_path demo_file (names ! i)) = Some b \<and>
      image_of demo_env b = Inr img \<and> files ?S (dst_path demo_file (names ! i)) = Some img"
    by blast
  have n0: "names ! 0 = ''A''" and n1: "names ! 1 = ''A_min''" by (simp_all add: names_def)
  from w have "\<exists>b img. demo_files (src_path demo_file (names ! 0)) = Some b \<and>
      image_of demo_env b = Inr img \<and> files ?S (dst_path demo_file (names ! 0)) = Some img"
    by simp
  then have a: "files ?S (demo_png ''A.png'') = Some [1, 2]"
    unfolding n0 by (auto simp: demo_src demo_dst demo_files_def demo_npz_def demo_image_A)
  from w have "\<exists>b img. demo_files (src_path demo_file (names ! 1)) = Some b \<and>
      image_of demo_env b = Inr img \<and> files ?S (dst_path demo_file (names ! 1)) = Some img"
    by simp
  then have b: "files ?S (demo_png ''A_min.png'') = Some [3]"
    unfolding n1 by (auto simp: demo_src demo_dst demo_files_def demo_npz_def demo_image_A_min)
  show ?thesis
    using j demo_two_ok fg a b run unfolding dr by blast
qed






end
